theory Spec2Isabelle
  imports Complex_Main "HOL-Library.Word" "HOL-Library.Multiset"
begin

section \<open>Example notebooks of ncps-mlx: the functions they define\<close>

text \<open>
  The repository is three notebooks. Their code cells define a handful of Python
  functions of their own; the ones with a computation in them are embedded here:
  \<^item> \<open>generate_complex_data\<close> and the training loop of \<open>mlx_cfc_rnn_example.ipynb\<close>;
  \<^item> \<open>HierarchicalWiringVisualizer._detect_layers\<close> and the position loop of
    \<open>plot_hierarchical\<close> of \<open>mlx_custom_visualization.ipynb\<close>.

  Conventions. Python integers are \<open>int\<close> (or \<open>nat\<close> where the source can only hold a
  count); the 32-bit integers of the wiring's matrix are \<open>32 word\<close> and wrap around.
  Floating-point numbers are idealised as \<open>real\<close>: rounding is not modelled.
  Every exception the modelled code can raise is a value of \<open>error\<close>, and a function that
  can raise returns \<open>error + 'a\<close> with \<open>Inl\<close> for the exception. Calls into numpy are
  modelled from numpy's documented behaviour; calls into MLX, the optimiser and the
  plotting libraries are parameters.
\<close>

datatype error = ValueError | IndexError | ZeroDivisionError

subsection \<open>Wirings and layer detection\<close>

text \<open>
  A wiring object, as the visualizer reads it: \<open>wiring.units\<close> and
  \<open>wiring.adjacency_matrix\<close>, given as the list of its rows. The library holds the
  matrix as an array of 32-bit signed integers; \<open>mx.abs\<close> and \<open>mx.sum\<close> keep that type,
  so both wrap around. An entry is a \<open>32 word\<close>, read as a signed number by \<open>sint\<close>.
\<close>

record wiring =
  units :: nat
  adjacency_matrix :: "32 word list list"

text \<open>The adjacency matrix is total: \<open>units\<close> rows of \<open>units\<close> entries each.\<close>

definition wiring_ok :: "wiring \<Rightarrow> bool" where
  "wiring_ok w \<longleftrightarrow>
     length (adjacency_matrix w) = units w \<and>
     list_all (\<lambda>row. length row = units w) (adjacency_matrix w)"

text \<open>
  \<open>mx.abs\<close> (the absolute value of the least 32-bit integer is that integer again), and
  \<open>mx.sum\<close> along axis 0 (column sums) and axis 1 (row sums), both modulo \<open>2^32\<close>.
\<close>

definition abs32 :: "32 word \<Rightarrow> 32 word" where
  "abs32 v = (if sint v < 0 then - v else v)"

definition mx_abs :: "32 word list list \<Rightarrow> 32 word list list" where
  "mx_abs m = map (map abs32) m"

definition ncols :: "32 word list list \<Rightarrow> nat" where
  "ncols m = (case m of [] \<Rightarrow> 0 | row # _ \<Rightarrow> length row)"

definition mx_sum_axis0 :: "32 word list list \<Rightarrow> 32 word list" where
  "mx_sum_axis0 m = map (\<lambda>j. sum_list (map (\<lambda>row. row ! j) m)) [0..<ncols m]"

definition mx_sum_axis1 :: "32 word list list \<Rightarrow> 32 word list" where
  "mx_sum_axis1 m = map sum_list m"

definition in_degree :: "wiring \<Rightarrow> 32 word list" where
  "in_degree w = mx_sum_axis0 (mx_abs (adjacency_matrix w))"

definition out_degree :: "wiring \<Rightarrow> 32 word list" where
  "out_degree w = mx_sum_axis1 (mx_abs (adjacency_matrix w))"

text \<open>
  The Python set \<open>remaining\<close> is held as the ascending list of its members. The order in
  which Python iterates a set is the order of its hash table, which the language leaves
  open. It is the parameter \<open>slot\<close>: \<open>slot S i\<close> is the place of member \<open>i\<close> in the table
  of the set \<open>S\<close>, and the iteration runs through the members by increasing place. Every
  order of the members arises from some \<open>slot\<close> (lemma \<open>iterate_set_any_order\<close> below).
  In \<open>_detect_layers\<close> a set that is iterated twice has not been changed in between, so
  one order per set is all the code can see.
\<close>

definition iterate_set :: "(nat set \<Rightarrow> nat \<Rightarrow> nat) \<Rightarrow> nat list \<Rightarrow> nat list" where
  "iterate_set slot s = sort_key (slot (set s)) s"

text \<open>
  The \<open>while remaining:\<close> loop of \<open>_detect_layers\<close>. A comprehension over the set is
  \<open>filter\<close> over its iteration, and \<open>remaining -= set(layer)\<close> filters the members of
  \<open>layer\<close> out. The loop returns the pair of \<open>layers\<close> and \<open>remaining\<close> it ends with.
\<close>

function hidden_layers ::
  "(nat set \<Rightarrow> nat \<Rightarrow> nat) \<Rightarrow> 32 word list \<Rightarrow> 32 word list \<Rightarrow> nat list list \<Rightarrow> nat list
   \<Rightarrow> nat list list \<times> nat list" where
  "hidden_layers slot ind outd layers remaining =
     (if remaining \<noteq> [] then
        (let layer = filter (\<lambda>i. ind ! i = outd ! i) (iterate_set slot remaining) in
         if layer = [] then (layers, remaining)
         else hidden_layers slot ind outd (layers @ [layer])
                (filter (\<lambda>i. i \<notin> set layer) remaining))
      else (layers, remaining))"
  by pat_completeness auto
termination
proof (relation "measure (\<lambda>(slot, ind, outd, layers, remaining). length remaining)")
  show "wf (measure (\<lambda>(slot, ind, outd, layers, remaining). length remaining))"
    by simp
next
  fix slot :: "nat set \<Rightarrow> nat \<Rightarrow> nat" and ind outd :: "32 word list"
    and layers :: "nat list list" and remaining layer :: "nat list"
  assume ne: "remaining \<noteq> []"
    and l: "layer = filter (\<lambda>i. ind ! i = outd ! i) (iterate_set slot remaining)"
    and lne: "layer \<noteq> []"
  from lne obtain a where a: "a \<in> set layer"
    by (cases layer) auto
  with l have "a \<in> set remaining"
    by (simp add: iterate_set_def)
  with a have "length (filter (\<lambda>i. i \<notin> set layer) remaining) < length remaining"
    by (intro length_filter_less[of a]) auto
  then show "((slot, ind, outd, layers @ [layer], filter (\<lambda>i. i \<notin> set layer) remaining),
              (slot, ind, outd, layers, remaining))
             \<in> measure (\<lambda>(slot, ind, outd, layers, remaining). length remaining)"
    by simp
qed

text \<open>
  \<open>_detect_layers\<close>: the input layer (in-degree above out-degree, as signed numbers) is
  appended even when it is empty; then the hidden layers; then what remains, if
  anything, as the output layer (\<open>list(remaining)\<close> iterates the set once more).
\<close>

definition detect_layers :: "(nat set \<Rightarrow> nat \<Rightarrow> nat) \<Rightarrow> wiring \<Rightarrow> nat list list" where
  "detect_layers slot w =
     (let ind = in_degree w;
          outd = out_degree w;
          remaining0 = [0..<units w];
          input_nodes = filter (\<lambda>i. sint (ind ! i) > sint (outd ! i))
                          (iterate_set slot remaining0);
          layers0 = [input_nodes];
          remaining1 = filter (\<lambda>i. i \<notin> set input_nodes) remaining0;
          (layers1, remaining2) = hidden_layers slot ind outd layers0 remaining1
      in if remaining2 \<noteq> [] then layers1 @ [iterate_set slot remaining2] else layers1)"

text \<open>
  \<open>__init__\<close> sets \<open>self.layers = layers or self._detect_layers()\<close>: a missing or empty
  \<open>layers\<close> argument is replaced by the detected layers.
\<close>

definition init_layers ::
  "(nat set \<Rightarrow> nat \<Rightarrow> nat) \<Rightarrow> wiring \<Rightarrow> nat list list option \<Rightarrow> nat list list" where
  "init_layers slot w layers =
     (case layers of
        None \<Rightarrow> detect_layers slot w
      | Some ls \<Rightarrow> if ls = [] then detect_layers slot w else ls)"

text \<open>
  The three classes of nodes the comprehensions of \<open>_detect_layers\<close> select, in ascending
  order, and the three layers as the code lists them, named for the statements below.
\<close>

definition input_nodes_of :: "wiring \<Rightarrow> nat list" where
  "input_nodes_of w =
     filter (\<lambda>i. sint (in_degree w ! i) > sint (out_degree w ! i)) [0..<units w]"

definition hidden_nodes_of :: "wiring \<Rightarrow> nat list" where
  "hidden_nodes_of w = filter (\<lambda>i. in_degree w ! i = out_degree w ! i) [0..<units w]"

definition output_nodes_of :: "wiring \<Rightarrow> nat list" where
  "output_nodes_of w =
     filter (\<lambda>i. sint (in_degree w ! i) < sint (out_degree w ! i)) [0..<units w]"

definition input_layer :: "(nat set \<Rightarrow> nat \<Rightarrow> nat) \<Rightarrow> wiring \<Rightarrow> nat list" where
  "input_layer slot w =
     filter (\<lambda>i. sint (in_degree w ! i) > sint (out_degree w ! i))
       (iterate_set slot [0..<units w])"

definition hidden_layer :: "(nat set \<Rightarrow> nat \<Rightarrow> nat) \<Rightarrow> wiring \<Rightarrow> nat list" where
  "hidden_layer slot w =
     filter (\<lambda>i. in_degree w ! i = out_degree w ! i)
       (iterate_set slot
          (filter (\<lambda>i. \<not> sint (in_degree w ! i) > sint (out_degree w ! i)) [0..<units w]))"

definition output_layer :: "(nat set \<Rightarrow> nat \<Rightarrow> nat) \<Rightarrow> wiring \<Rightarrow> nat list" where
  "output_layer slot w = iterate_set slot (output_nodes_of w)"

subsection \<open>Node positions of \<open>plot_hierarchical\<close>\<close>

text \<open>
  The dictionary \<open>pos\<close> maps a node to its \<open>(x, y)\<close>. The outer loop runs over
  \<open>enumerate(self.layers)\<close> and computes \<open>y = 1 - layer_idx / (len(self.layers) - 1)\<close>
  before the inner loop, so the division happens for an empty layer too; Python's \<open>/\<close>
  raises ZeroDivisionError on a zero divisor. The inner loop stores
  \<open>x = (node_idx + 1) / (len(layer) + 1)\<close>, whose divisor is never zero. What follows the
  loop (\<open>nx.draw\<close>, the layer labels) is library drawing and is not modelled.
\<close>

type_synonym positions = "nat \<rightharpoonup> real \<times> real"

definition place_layer :: "real \<Rightarrow> nat list \<Rightarrow> positions \<Rightarrow> positions" where
  "place_layer y layer pos =
     fold (\<lambda>(node_idx, node) pos.
             pos(node \<mapsto> (real (node_idx + 1) / real (length layer + 1), y)))
          (enumerate 0 layer) pos"

fun place_layers :: "nat \<Rightarrow> (nat \<times> nat list) list \<Rightarrow> positions \<Rightarrow> error + positions" where
  "place_layers n [] pos = Inr pos"
| "place_layers n ((layer_idx, layer) # rest) pos =
     (if int n - 1 = 0 then Inl ZeroDivisionError
      else place_layers n rest
             (place_layer (1 - real layer_idx / real_of_int (int n - 1)) layer pos))"

definition plot_hierarchical_pos :: "nat list list \<Rightarrow> error + positions" where
  "plot_hierarchical_pos layers =
     place_layers (length layers) (enumerate 0 layers) Map.empty"

subsection \<open>numpy, as far as \<open>generate_complex_data\<close> uses it\<close>

text \<open>
  A one-dimensional array is a list of reals. An array of more dimensions keeps its shape
  and its entries in row-major order, so that an array with a zero dimension still has
  its shape.
\<close>

record ndarray =
  shape :: "nat list"
  data :: "real list"

definition bind_err :: "error + 'a \<Rightarrow> ('a \<Rightarrow> error + 'b) \<Rightarrow> error + 'b" where
  "bind_err m f = (case m of Inl e \<Rightarrow> Inl e | Inr v \<Rightarrow> f v)"

text \<open>\<open>np.zeros(dims)\<close>: a negative dimension is a ValueError.\<close>

definition np_zeros :: "int list \<Rightarrow> error + ndarray" where
  "np_zeros dims =
     (if list_ex (\<lambda>d. d < 0) dims then Inl ValueError
      else Inr \<lparr>shape = map nat dims, data = replicate (prod_list (map nat dims)) 0\<rparr>)"

text \<open>
  \<open>np.linspace(start, stop, num)\<close>: \<open>num\<close> evenly spaced points from \<open>start\<close> to \<open>stop\<close>,
  both included; a negative \<open>num\<close> is a ValueError, and \<open>num = 1\<close> gives \<open>[start]\<close>.
\<close>

definition np_linspace :: "real \<Rightarrow> real \<Rightarrow> int \<Rightarrow> error + real list" where
  "np_linspace start stop num =
     (if num < 0 then Inl ValueError
      else Inr (map (\<lambda>k. start + real k * ((stop - start) / real_of_int (num - 1)))
                  [0..<nat num]))"

definition np_sin :: "real list \<Rightarrow> real list" where
  "np_sin xs = map sin xs"

text \<open>A scalar times an array, and the sum of two arrays of the same shape.\<close>

definition np_scale :: "real \<Rightarrow> real list \<Rightarrow> real list" where
  "np_scale c xs = map (\<lambda>v. c * v) xs"

definition np_add :: "real list \<Rightarrow> real list \<Rightarrow> real list" where
  "np_add xs ys = map2 (+) xs ys"

text \<open>
  \<open>np.random.randint(low, high)\<close> draws from the half-open range \<open>[low, high)\<close> and
  raises ValueError when the range is empty (\<open>low >= high\<close>). The generator's raw draw is
  the parameter \<open>r\<close>.
\<close>

definition np_random_randint :: "int \<Rightarrow> int \<Rightarrow> nat \<Rightarrow> error + int" where
  "np_random_randint low high r =
     (if low \<ge> high then Inl ValueError
      else Inr (low + int (r mod nat (high - low))))"

text \<open>
  Indexing and slicing of a one-dimensional array with Python's rules: a negative index
  counts from the end, an index out of range is an IndexError, slice bounds are clipped.
\<close>

definition py_getitem :: "real list \<Rightarrow> int \<Rightarrow> error + real" where
  "py_getitem xs i =
     (if 0 \<le> i \<and> i < int (length xs) then Inr (xs ! nat i)
      else if i < 0 \<and> - int (length xs) \<le> i then Inr (xs ! nat (int (length xs) + i))
      else Inl IndexError)"

definition slice_bound :: "nat \<Rightarrow> int \<Rightarrow> nat" where
  "slice_bound n i = (if i < 0 then nat (max 0 (int n + i)) else min (nat i) n)"

definition py_slice :: "real list \<Rightarrow> int \<Rightarrow> int \<Rightarrow> real list" where
  "py_slice xs a b =
     (let lo = slice_bound (length xs) a; hi = slice_bound (length xs) b
      in take (hi - lo) (drop lo xs))"

text \<open>
  \<open>np.gradient\<close> of a one-dimensional array with unit spacing: central differences inside,
  one-sided differences at the two ends; fewer than two entries is a ValueError.
\<close>

definition np_gradient :: "real list \<Rightarrow> error + real list" where
  "np_gradient f =
     (let n = length f in
      if n < 2 then Inl ValueError
      else Inr (map (\<lambda>i. if i = 0 then f ! 1 - f ! 0
                          else if i = n - 1 then f ! (n - 1) - f ! (n - 2)
                          else (f ! (i + 1) - f ! (i - 1)) / 2)
                  [0..<n]))"

text \<open>
  \<open>X[i, :, c] = v\<close> on a three-dimensional array and \<open>y[i, c] = v\<close> on a two-dimensional
  one. The assigned vector must have the length of the middle axis, or length one
  (broadcast); anything else is a ValueError.
\<close>

definition setitem_X :: "ndarray \<Rightarrow> nat \<Rightarrow> nat \<Rightarrow> real list \<Rightarrow> error + ndarray" where
  "setitem_X X i c v =
     (case shape X of
        [b, m, f] \<Rightarrow>
          if \<not> (i < b \<and> c < f) then Inl IndexError
          else if length v = m then
            Inr (X\<lparr>data := fold (\<lambda>j d. d[(i * m + j) * f + c := v ! j]) [0..<m] (data X)\<rparr>)
          else if length v = 1 then
            Inr (X\<lparr>data := fold (\<lambda>j d. d[(i * m + j) * f + c := v ! 0]) [0..<m] (data X)\<rparr>)
          else Inl ValueError
      | _ \<Rightarrow> Inl IndexError)"

definition setitem_y :: "ndarray \<Rightarrow> nat \<Rightarrow> nat \<Rightarrow> real \<Rightarrow> error + ndarray" where
  "setitem_y y i c v =
     (case shape y of
        [b, f] \<Rightarrow>
          if \<not> (i < b \<and> c < f) then Inl IndexError
          else Inr (y\<lparr>data := (data y)[i * f + c := v]\<rparr>)
      | _ \<Rightarrow> Inl IndexError)"

text \<open>\<open>mx.array\<close> copies a numpy array into an MLX array of the same shape and entries.\<close>

definition mx_array :: "ndarray \<Rightarrow> ndarray" where
  "mx_array a = a"

subsection \<open>\<open>generate_complex_data\<close>\<close>

text \<open>
  The base signal: \<open>t = np.linspace(0, 8*np.pi, seq_length)\<close>, then
  \<open>x = x1 + x2 + x3\<close> with \<open>x1 = np.sin(t)\<close>, \<open>x2 = 0.5 * np.sin(2*t)\<close> and
  \<open>x3 = 0.25 * np.sin(4*t)\<close>. The three arrays have the shape of \<open>t\<close>, so the sums are
  elementwise.
\<close>

definition base_signal :: "int \<Rightarrow> error + real list" where
  "base_signal seq_length =
     bind_err (np_linspace 0 (8 * pi) seq_length) (\<lambda>t.
       let x1 = np_sin t;
           x2 = np_scale 0.5 (np_sin (np_scale 2 t));
           x3 = np_scale 0.25 (np_sin (np_scale 4 t));
           x = np_add (np_add x1 x2) x3
       in Inr x)"

text \<open>One pass of the body of \<open>for i in range(batch_size)\<close>, with the raw draw \<open>r\<close>.\<close>

definition batch_step ::
  "real list \<Rightarrow> int \<Rightarrow> nat \<Rightarrow> nat \<Rightarrow> ndarray \<times> ndarray \<Rightarrow> error + ndarray \<times> ndarray" where
  "batch_step x seq_length r i Xy =
     (case Xy of (X, y) \<Rightarrow>
      bind_err (np_random_randint 0 (int (length x) - seq_length) r) (\<lambda>start_idx.
      let seg = py_slice x start_idx (start_idx + seq_length - 1) in
      bind_err (setitem_X X i 0 seg) (\<lambda>X1.
      bind_err (np_gradient seg) (\<lambda>g.
      bind_err (setitem_X X1 i 1 g) (\<lambda>X2.
      bind_err (py_getitem x (start_idx + seq_length - 1)) (\<lambda>v.
      bind_err (setitem_y y i 0 v) (\<lambda>y1.
      bind_err (np_gradient x) (\<lambda>gx.
      bind_err (py_getitem gx (start_idx + seq_length - 1)) (\<lambda>gv.
      bind_err (setitem_y y1 i 1 gv) (\<lambda>y2.
      Inr (X2, y2)))))))))))"

fun batch_loop ::
  "real list \<Rightarrow> int \<Rightarrow> (nat \<Rightarrow> nat) \<Rightarrow> nat list \<Rightarrow> ndarray \<times> ndarray
   \<Rightarrow> error + ndarray \<times> ndarray" where
  "batch_loop x seq_length rng [] Xy = Inr Xy"
| "batch_loop x seq_length rng (i # rest) Xy =
     bind_err (batch_step x seq_length (rng i) i Xy) (batch_loop x seq_length rng rest)"

definition generate_complex_data ::
  "int \<Rightarrow> int \<Rightarrow> (nat \<Rightarrow> nat) \<Rightarrow> error + ndarray \<times> ndarray" where
  "generate_complex_data batch_size seq_length rng =
     bind_err (base_signal seq_length) (\<lambda>x.
     bind_err (np_zeros [batch_size, seq_length - 1, 2]) (\<lambda>X.
     bind_err (np_zeros [batch_size, 2]) (\<lambda>y.
     bind_err (batch_loop x seq_length rng [0..<nat batch_size] (X, y)) (\<lambda>Xy.
     Inr (mx_array (fst Xy), mx_array (snd Xy))))))"

subsection \<open>The training loop of the CfC example\<close>

text \<open>
  The loop mutates the model and appends to \<open>losses\<close>. The state also counts the calls
  of \<open>loss_and_grad_fn\<close> (the function \<open>nn.value_and_grad\<close> returned) and of
  \<open>optimizer.update\<close>. Both are library code and are parameters here: each may raise or
  return. \<open>time_delta\<close> is the library's random draw of the epoch
  (\<open>mx.random.uniform\<close>, which may raise as well); \<open>rng\<close> gives the raw draws of numpy's
  generator in each epoch.

  An exception leaves the loop at once; the result is the exception, if any, and the
  state at that moment.
\<close>

record 'm train_state =
  model :: 'm
  losses :: "real list"
  grad_calls :: nat
  update_calls :: nat

fun training_loop ::
  "('m \<Rightarrow> ndarray \<Rightarrow> ndarray \<Rightarrow> 't \<Rightarrow> error + real \<times> 'g) \<Rightarrow> ('m \<Rightarrow> 'g \<Rightarrow> error + 'm)
   \<Rightarrow> (nat \<Rightarrow> error + 't) \<Rightarrow> (nat \<Rightarrow> nat \<Rightarrow> nat) \<Rightarrow> int \<Rightarrow> int \<Rightarrow> nat list \<Rightarrow> 'm train_state
   \<Rightarrow> error option \<times> 'm train_state" where
  "training_loop loss_and_grad_fn update time_delta rng batch_size seq_length [] s = (None, s)"
| "training_loop loss_and_grad_fn update time_delta rng batch_size seq_length (epoch # rest) s =
     (case generate_complex_data batch_size seq_length (rng epoch) of
        Inl e \<Rightarrow> (Some e, s)
      | Inr Xy \<Rightarrow>
          (case time_delta epoch of
             Inl e \<Rightarrow> (Some e, s)
           | Inr td \<Rightarrow>
               (case loss_and_grad_fn (model s) (fst Xy) (snd Xy) td of
                  Inl e \<Rightarrow> (Some e, s\<lparr>grad_calls := grad_calls s + 1\<rparr>)
                | Inr lg \<Rightarrow>
                    (case update (model s) (snd lg) of
                       Inl e \<Rightarrow> (Some e, s\<lparr>grad_calls := grad_calls s + 1,
                                             update_calls := update_calls s + 1\<rparr>)
                     | Inr m \<Rightarrow>
                         training_loop loss_and_grad_fn update time_delta rng batch_size
                           seq_length rest
                           (s\<lparr>model := m, losses := losses s @ [fst lg],
                              grad_calls := grad_calls s + 1,
                              update_calls := update_calls s + 1\<rparr>)))))"

text \<open>
  The loop of the cell as written, from \<open>losses = []\<close> on: \<open>batch_size = 32\<close>,
  \<open>seq_length = 50\<close>, \<open>n_epochs = 100\<close>, and the loop over \<open>range(n_epochs)\<close>. The
  statements of the cell before it (the model, \<open>nn.value_and_grad\<close>, the optimiser) are
  library constructors; \<open>m0\<close> is the model they left, and the loop is reached only when
  they returned.
\<close>

definition training_cell ::
  "('m \<Rightarrow> ndarray \<Rightarrow> ndarray \<Rightarrow> 't \<Rightarrow> error + real \<times> 'g) \<Rightarrow> ('m \<Rightarrow> 'g \<Rightarrow> error + 'm)
   \<Rightarrow> (nat \<Rightarrow> error + 't) \<Rightarrow> (nat \<Rightarrow> nat \<Rightarrow> nat) \<Rightarrow> 'm \<Rightarrow> error option \<times> 'm train_state" where
  "training_cell loss_and_grad_fn update time_delta rng m0 =
     training_loop loss_and_grad_fn update time_delta rng 32 50 [0..<100]
       \<lparr>model = m0, losses = [], grad_calls = 0, update_calls = 0\<rparr>"

subsection \<open>The notebook files as JSON text\<close>

text \<open>
  A notebook file is a JSON document. The string production of the JSON grammar
  (RFC 8259, section 7): a string starts and ends with a quotation mark; between them
  stands any character but a quotation mark, a backslash or a control character (below
  U+0020), or an escape: a backslash followed by a quotation mark, a backslash, a slash or one of
  \<open>b f n r t\<close>, or by \<open>u\<close> and four hexadecimal digits. \<open>json_string_chars\<close> scans the text after the opening
  quotation mark and returns what follows the closing one, or \<open>None\<close> when the text is
  not a string.
\<close>

definition json_escape_char :: "char \<Rightarrow> bool" where
  "json_escape_char c \<longleftrightarrow> c = CHR 0x22 \<or> c = CHR 0x5C \<or> c \<in> set ''/bfnrt''"

definition json_hex_digit :: "char \<Rightarrow> bool" where
  "json_hex_digit c \<longleftrightarrow> c \<in> set ''0123456789abcdefABCDEF''"

fun json_string_chars :: "string \<Rightarrow> string option" where
  "json_string_chars [] = None"
| "json_string_chars (c # cs) =
     (if c = CHR 0x22 then Some cs
      else if c = CHR 0x5C then
        (case cs of
           [] \<Rightarrow> None
         | e # es \<Rightarrow>
             if json_escape_char e then json_string_chars es
             else if e = CHR ''u'' then
               (case es of
                  h1 # h2 # h3 # h4 # rest \<Rightarrow>
                    if json_hex_digit h1 \<and> json_hex_digit h2 \<and> json_hex_digit h3
                       \<and> json_hex_digit h4
                    then json_string_chars rest else None
                | _ \<Rightarrow> None)
             else None)
      else if (of_char c :: nat) < 0x20 then None
      else json_string_chars cs)"

definition json_string :: "string \<Rightarrow> string option" where
  "json_string s =
     (case s of
        [] \<Rightarrow> None
      | c # cs \<Rightarrow> if c = CHR 0x22 then json_string_chars cs else None)"

text \<open>
  Two entries of the \<open>source\<close> array of the import cell of
  \<open>mlx_custom_visualization.ipynb\<close>, from the opening quotation mark to the comma:
  line 24, and the entry that spans lines 25 to 27 (the line breaks are in the file).
\<close>

definition import_cell_line_24 :: string where
  "import_cell_line_24 =
     [CHR 0x22] @ ''import matplotlib.pyplot as plt'' @ [CHR 0x5C] @ ''n'' @ [CHR 0x22] @ '',''"

definition import_cell_lines_25_27 :: string where
  "import_cell_lines_25_27 =
     [CHR 0x22] @ ''from mpl_toolkits.mplot3d import Axes3D'' @ [CHR 0x0A]
     @ ''    # Register 3D projection with matplotlib'' @ [CHR 0x0A]
     @ ''    _ = Axes3D'' @ [CHR 0x5C] @ ''n'' @ [CHR 0x22] @ '',''"

subsection \<open>Example wirings and iteration orders\<close>

text \<open>The wiring without nodes.\<close>

definition empty_wiring :: wiring where
  "empty_wiring = \<lparr>units = 0, adjacency_matrix = []\<rparr>"

text \<open>The chain \<open>0 \<rightarrow> 1 \<rightarrow> 2\<close> on three nodes: row \<open>i\<close> holds the edges out of node \<open>i\<close>.\<close>

definition chain3 :: wiring where
  "chain3 = \<lparr>units = 3, adjacency_matrix = [[0, 1, 0], [0, 0, 1], [0, 0, 0]]\<rparr>"

text \<open>The cycle on two nodes: every node has in-degree one and out-degree one.\<close>

definition cycle2 :: wiring where
  "cycle2 = \<lparr>units = 2, adjacency_matrix = [[0, 1], [1, 0]]\<rparr>"

text \<open>
  Two nodes with two heavy edges out of node 0: the first row sums to \<open>2^31\<close>, which
  wraps to the least 32-bit integer, so the out-degree of node 0 reads as negative.
\<close>

definition heavy2 :: wiring where
  "heavy2 = \<lparr>units = 2, adjacency_matrix = [[2 ^ 30, 2 ^ 30], [0, 0]]\<rparr>"

text \<open>Two iteration orders: ascending, and descending (for members up to 100).\<close>

definition slot_ascending :: "nat set \<Rightarrow> nat \<Rightarrow> nat" where
  "slot_ascending S i = i"

definition slot_descending :: "nat set \<Rightarrow> nat \<Rightarrow> nat" where
  "slot_descending S i = 100 - i"

section \<open>Properties\<close>

subsection \<open>Iterating a set\<close>

lemma set_iterate_set: "set (iterate_set slot s) = set s"
  by (simp add: iterate_set_def)

lemma distinct_iterate_set: "distinct (iterate_set slot s) = distinct s"
  by (simp add: iterate_set_def)

lemma filter_iterate_set_empty: "filter P (iterate_set slot s) = [] \<longleftrightarrow> filter P s = []"
  by (simp add: filter_empty_conv set_iterate_set)

lemma iterate_set_empty: "iterate_set slot s = [] \<longleftrightarrow> s = []"
  using filter_iterate_set_empty[of "\<lambda>i. True" slot s] by simp

text \<open>
  The parameter \<open>slot\<close> does not restrict the order: every list of the members of the set
  is its iteration for some \<open>slot\<close>.
\<close>

lemma length_takeWhile_nth:
  assumes "distinct ys" and "i < length ys"
  shows "length (takeWhile (\<lambda>y. y \<noteq> ys ! i) ys) = i"
proof -
  have "takeWhile (\<lambda>y. y \<noteq> ys ! i) ys = take i ys"
  proof (rule takeWhile_eq_take_P_nth)
    fix j assume "j < i" "j < length ys"
    with assms show "ys ! j \<noteq> ys ! i"
      by (simp add: nth_eq_iff_index_eq)
  qed simp
  with assms show ?thesis
    by simp
qed

lemma iterate_set_any_order:
  assumes d: "distinct ys" and s: "set ys = set s" and ds: "distinct s"
  shows "\<exists>slot. iterate_set slot s = ys"
proof -
  define f where "f = (\<lambda>i. length (takeWhile (\<lambda>y. y \<noteq> i) ys))"
  have f_nth: "f (ys ! j) = j" if "j < length ys" for j
    unfolding f_def using d that by (rule length_takeWhile_nth)
  have "map f ys = [0..<length ys]"
    by (rule nth_equalityI) (simp_all add: f_nth)
  then have sorted: "sorted (map f ys)"
    by simp
  have inj: "inj_on f (set s)"
  proof (rule inj_onI)
    fix a b assume "a \<in> set s" "b \<in> set s" and eq: "f a = f b"
    with s obtain j k where "j < length ys" "a = ys ! j" "k < length ys" "b = ys ! k"
      by (metis in_set_conv_nth)
    with eq f_nth show "a = b"
      by simp
  qed
  have "mset s = mset ys"
    using d ds s by (simp add: set_eq_iff_mset_eq_distinct)
  from sort_key_inj_key_eq[OF this inj sorted] have "iterate_set (\<lambda>S. f) s = ys"
    by (simp add: iterate_set_def)
  then show ?thesis
    by blast
qed

subsection \<open>Layer detection in closed form\<close>

text \<open>
  After one pass of the loop no node with equal degrees is left, so the second pass
  finds an empty layer and stops: the loop adds at most one hidden layer.
\<close>

declare hidden_layers.simps [simp del]

lemma hidden_layers_closed:
  "hidden_layers slot ind outd layers remaining =
     (if filter (\<lambda>i. ind ! i = outd ! i) remaining = [] then (layers, remaining)
      else (layers @ [filter (\<lambda>i. ind ! i = outd ! i) (iterate_set slot remaining)],
            filter (\<lambda>i. ind ! i \<noteq> outd ! i) remaining))"
proof (cases "filter (\<lambda>i. ind ! i = outd ! i) remaining = []")
  case True
  then have "filter (\<lambda>i. ind ! i = outd ! i) (iterate_set slot remaining) = []"
    by (simp add: filter_iterate_set_empty)
  with True show ?thesis
    by (subst hidden_layers.simps) (simp add: Let_def)
next
  case False
  define E where "E = filter (\<lambda>i. ind ! i = outd ! i) (iterate_set slot remaining)"
  define R where "R = filter (\<lambda>i. i \<notin> set E) remaining"
  have E_ne: "E \<noteq> []"
    using False by (simp add: E_def filter_iterate_set_empty)
  have R_eq: "R = filter (\<lambda>i. ind ! i \<noteq> outd ! i) remaining"
    unfolding R_def E_def by (rule filter_cong) (auto simp: set_iterate_set)
  have "filter (\<lambda>i. ind ! i = outd ! i) R = []"
    unfolding R_eq by (simp add: filter_empty_conv)
  then have noeq: "filter (\<lambda>i. ind ! i = outd ! i) (iterate_set slot R) = []"
    by (simp add: filter_iterate_set_empty)
  have ne: "remaining \<noteq> []"
    using False by auto
  have "hidden_layers slot ind outd layers remaining = hidden_layers slot ind outd (layers @ [E]) R"
    using E_ne ne by (subst hidden_layers.simps) (simp add: Let_def E_def R_def)
  also have "\<dots> = (layers @ [E], R)"
    using noeq by (subst hidden_layers.simps) (simp add: Let_def)
  finally show ?thesis
    using False by (simp add: E_def R_eq)
qed

lemma sint_less_cases:
  fixes a b :: "32 word"
  shows "sint a < sint b \<or> a = b \<or> sint b < sint a"
  by (metis linorder_neqE_linordered_idom signed_word_eqI)

lemma detect_layers_closed:
  "detect_layers slot w =
     [input_layer slot w]
     @ (if hidden_nodes_of w = [] then [] else [hidden_layer slot w])
     @ (if output_nodes_of w = [] then [] else [output_layer slot w])"
proof -
  define ind where "ind = in_degree w"
  define outd where "outd = out_degree w"
  define I where "I = filter (\<lambda>i. sint (ind ! i) > sint (outd ! i)) (iterate_set slot [0..<units w])"
  define R1 where "R1 = filter (\<lambda>i. i \<notin> set I) [0..<units w]"
  have I: "I = input_layer slot w"
    by (simp add: I_def input_layer_def ind_def outd_def)
  have R1: "R1 = filter (\<lambda>i. \<not> sint (ind ! i) > sint (outd ! i)) [0..<units w]"
    unfolding R1_def I_def by (rule filter_cong) (auto simp: set_iterate_set)
  have E0: "filter (\<lambda>i. ind ! i = outd ! i) R1 = hidden_nodes_of w"
    unfolding R1 hidden_nodes_of_def filter_filter ind_def outd_def
    by (rule filter_cong) auto
  have E: "filter (\<lambda>i. ind ! i = outd ! i) (iterate_set slot R1) = hidden_layer slot w"
    by (simp add: hidden_layer_def R1 ind_def outd_def)
  have O: "filter (\<lambda>i. ind ! i \<noteq> outd ! i) R1 = output_nodes_of w"
    unfolding R1 output_nodes_of_def filter_filter ind_def outd_def
    using sint_less_cases by (intro filter_cong) auto
  have noE: "R1 = output_nodes_of w" if "hidden_nodes_of w = []"
  proof -
    from that E0 have "\<forall>i\<in>set R1. ind ! i \<noteq> outd ! i"
      by (simp add: filter_empty_conv)
    then have "filter (\<lambda>i. ind ! i \<noteq> outd ! i) R1 = R1"
      by (simp add: filter_id_conv)
    with O show ?thesis by simp
  qed
  have H: "hidden_layers slot ind outd [I] R1 =
             (if hidden_nodes_of w = [] then ([I], output_nodes_of w)
              else ([I, hidden_layer slot w], output_nodes_of w))"
    using noE by (simp add: hidden_layers_closed E0 E O)
  have "detect_layers slot w =
          (case hidden_layers slot ind outd [I] R1 of
             (layers1, remaining2) \<Rightarrow>
               if remaining2 \<noteq> [] then layers1 @ [iterate_set slot remaining2] else layers1)"
    by (simp add: detect_layers_def Let_def ind_def outd_def I_def R1_def)
  then show ?thesis
    unfolding H by (simp add: I output_layer_def)
qed

text \<open>A visualizer built without \<open>layers\<close>, or with an empty list, holds the detected layers.\<close>

lemma init_layers_detected:
  "init_layers slot w None = detect_layers slot w"
  "init_layers slot w (Some []) = detect_layers slot w"
  by (simp_all add: init_layers_def)

text \<open>The three layers hold the three classes of nodes, each node once.\<close>

lemma set_input_layer: "set (input_layer slot w) = set (input_nodes_of w)"
  by (simp add: input_layer_def input_nodes_of_def set_iterate_set)

lemma set_hidden_layer: "set (hidden_layer slot w) = set (hidden_nodes_of w)"
  by (auto simp: hidden_layer_def hidden_nodes_of_def set_iterate_set)

lemma set_output_layer: "set (output_layer slot w) = set (output_nodes_of w)"
  by (simp add: output_layer_def set_iterate_set)

lemma distinct_layers:
  "distinct (input_layer slot w)" "distinct (hidden_layer slot w)" "distinct (output_layer slot w)"
  by (simp_all add: input_layer_def hidden_layer_def output_layer_def output_nodes_of_def
      distinct_iterate_set)

lemma hidden_layer_empty: "hidden_layer slot w = [] \<longleftrightarrow> hidden_nodes_of w = []"
  using set_hidden_layer[of slot w] by (metis set_empty)

lemma output_layer_empty: "output_layer slot w = [] \<longleftrightarrow> output_nodes_of w = []"
  by (simp add: output_layer_def iterate_set_empty)

lemma concat_detect_layers:
  "concat (detect_layers slot w) = input_layer slot w @ hidden_layer slot w @ output_layer slot w"
  using hidden_layer_empty[of slot w] output_layer_empty[of slot w]
  by (auto simp: detect_layers_closed)

lemma distinct_concat_detect_layers: "distinct (concat (detect_layers slot w))"
  unfolding concat_detect_layers
  by (auto simp: distinct_layers set_input_layer set_hidden_layer set_output_layer
      input_nodes_of_def hidden_nodes_of_def output_nodes_of_def)

lemma set_concat_detect_layers: "set (concat (detect_layers slot w)) = {0..<units w}"
proof -
  have "set (input_nodes_of w) \<union> set (hidden_nodes_of w) \<union> set (output_nodes_of w) = {0..<units w}"
    using sint_less_cases
    by (auto simp: input_nodes_of_def hidden_nodes_of_def output_nodes_of_def)
  then show ?thesis
    unfolding concat_detect_layers
    by (simp add: set_input_layer set_hidden_layer set_output_layer Un_assoc)
qed

lemma distinct_concat_unique_index:
  "distinct (concat L) \<Longrightarrow> j < length L \<Longrightarrow> k < length L \<Longrightarrow>
   i \<in> set (L ! j) \<Longrightarrow> i \<in> set (L ! k) \<Longrightarrow> j = k"
proof (induction L arbitrary: j k)
  case Nil
  then show ?case by simp
next
  case (Cons a L)
  show ?case
  proof (cases j; cases k)
    fix j' k' assume "j = Suc j'" "k = Suc k'"
    with Cons show ?thesis by auto
  next
    fix k' assume "j = 0" "k = Suc k'"
    with Cons.prems show ?thesis by (auto dest: nth_mem)
  next
    fix j' assume "j = Suc j'" "k = 0"
    with Cons.prems show ?thesis by (auto dest: nth_mem)
  qed simp
qed

subsection \<open>The example wirings\<close>

lemma chain3_ok: "wiring_ok chain3"
  by (simp add: wiring_ok_def chain3_def)

lemma cycle2_ok: "wiring_ok cycle2"
  by (simp add: wiring_ok_def cycle2_def)

lemma heavy2_ok: "wiring_ok heavy2"
  by (simp add: wiring_ok_def heavy2_def)

lemma empty_wiring_ok: "wiring_ok empty_wiring"
  by (simp add: wiring_ok_def empty_wiring_def)

lemma detect_layers_chain3: "detect_layers slot_ascending chain3 = [[2], [1], [0]]"
  by code_simp

lemma detect_layers_chain3_descending: "detect_layers slot_descending chain3 = [[2], [1], [0]]"
  by code_simp

lemma detect_layers_cycle2: "detect_layers slot_ascending cycle2 = [[], [0, 1]]"
  by code_simp

lemma detect_layers_cycle2_descending: "detect_layers slot_descending cycle2 = [[], [1, 0]]"
  by code_simp

lemma detect_layers_empty_wiring: "detect_layers slot_ascending empty_wiring = [[]]"
  by code_simp

text \<open>
  On \<open>heavy2\<close> the out-degree of node 0 wraps to a negative number, both nodes count as
  input nodes and a single layer is detected.
\<close>

lemma degrees_heavy2:
  "map sint (in_degree heavy2) = [2 ^ 30, 2 ^ 30]"
  "map sint (out_degree heavy2) = [- (2 ^ 31), 0]"
  by code_simp+

lemma detect_layers_heavy2: "detect_layers slot_ascending heavy2 = [[0, 1]]"
  by code_simp

subsection \<open>The layers are a partition of the nodes\<close>

text \<open>
  C5. For every wiring with \<open>units\<close> nodes and a total adjacency matrix, and whatever the
  order in which Python iterates its sets, \<open>_detect_layers\<close> returns (the function is
  total: its loop terminates) a partition of the node set: no node occurs twice in the
  concatenation of the layers, so the layers are pairwise disjoint; the nodes that occur
  are exactly \<open>0, ..., units - 1\<close>; and every node is in exactly one layer.
\<close>

theorem detect_layers_partition:
  "wiring_ok w \<Longrightarrow>
     distinct (concat (detect_layers slot w)) \<and>
     set (concat (detect_layers slot w)) = {0..<units w} \<and>
     (\<forall>i<units w. \<exists>!k. k < length (detect_layers slot w) \<and> i \<in> set (detect_layers slot w ! k))"
proof (intro conjI allI impI)
  show "distinct (concat (detect_layers slot w))"
    by (rule distinct_concat_detect_layers)
  show cover: "set (concat (detect_layers slot w)) = {0..<units w}"
    by (rule set_concat_detect_layers)
  fix i assume "i < units w"
  with cover have "i \<in> set (concat (detect_layers slot w))"
    by simp
  then obtain layer where "layer \<in> set (detect_layers slot w)" "i \<in> set layer"
    by auto
  then obtain k where k: "k < length (detect_layers slot w)" "i \<in> set (detect_layers slot w ! k)"
    by (metis in_set_conv_nth)
  show "\<exists>!k. k < length (detect_layers slot w) \<and> i \<in> set (detect_layers slot w ! k)"
  proof (rule ex1I[of _ k])
    show "k < length (detect_layers slot w) \<and> i \<in> set (detect_layers slot w ! k)"
      using k by simp
  next
    fix j assume "j < length (detect_layers slot w) \<and> i \<in> set (detect_layers slot w ! j)"
    with k distinct_concat_detect_layers[of slot w] show "j = k"
      by (blast intro: distinct_concat_unique_index)
  qed
qed

theorem detect_layers_partition_witness:
  "wiring_ok chain3 \<and>
   detect_layers slot_ascending chain3 = [[2], [1], [0]] \<and>
   distinct (concat (detect_layers slot_ascending chain3)) \<and>
   set (concat (detect_layers slot_ascending chain3)) = {0..<units chain3} \<and>
   (\<exists>!k. k < length (detect_layers slot_ascending chain3)
         \<and> 1 \<in> set (detect_layers slot_ascending chain3 ! k)) \<and>
   wiring_ok cycle2 \<and>
   detect_layers slot_descending cycle2 = [[], [1, 0]] \<and>
   set (concat (detect_layers slot_descending cycle2)) = {0..<units cycle2}"
proof -
  have one: "1 < units chain3"
    by (simp add: chain3_def)
  from detect_layers_partition[OF chain3_ok, of slot_ascending]
    detect_layers_partition[OF cycle2_ok, of slot_descending] one
  show ?thesis
    using chain3_ok detect_layers_chain3 cycle2_ok detect_layers_cycle2_descending by blast
qed

subsection \<open>Degrees\<close>

text \<open>
  For a total adjacency matrix both degree vectors have one entry per node, so every
  \<open>in_degree[i]\<close> and \<open>out_degree[i]\<close> that \<open>_detect_layers\<close> reads is in range.
\<close>

lemma ncols_ok: "wiring_ok w \<Longrightarrow> ncols (mx_abs (adjacency_matrix w)) = units w"
  by (cases "adjacency_matrix w") (auto simp: wiring_ok_def ncols_def mx_abs_def)

lemma length_in_degree: "wiring_ok w \<Longrightarrow> length (in_degree w) = units w"
  by (simp add: in_degree_def mx_sum_axis0_def ncols_ok)

lemma length_out_degree: "wiring_ok w \<Longrightarrow> length (out_degree w) = units w"
  by (simp add: out_degree_def mx_sum_axis1_def mx_abs_def wiring_ok_def)

lemma length_detect_layers:
  "length (detect_layers slot w) =
     1 + (if hidden_nodes_of w = [] then 0 else 1) + (if output_nodes_of w = [] then 0 else 1)"
  by (simp add: detect_layers_closed)

lemma one_layer_iff:
  "length (detect_layers slot w) = 1 \<longleftrightarrow>
     (\<forall>i<units w. sint (in_degree w ! i) > sint (out_degree w ! i))"
proof -
  have "length (detect_layers slot w) = 1 \<longleftrightarrow> hidden_nodes_of w = [] \<and> output_nodes_of w = []"
    by (simp add: length_detect_layers)
  also have "\<dots> \<longleftrightarrow> (\<forall>i<units w. in_degree w ! i \<noteq> out_degree w ! i \<and>
                                  \<not> sint (in_degree w ! i) < sint (out_degree w ! i))"
    by (auto simp: hidden_nodes_of_def output_nodes_of_def filter_empty_conv)
  also have "\<dots> \<longleftrightarrow> (\<forall>i<units w. sint (in_degree w ! i) > sint (out_degree w ! i))"
    using sint_less_cases by (metis order_less_asym)
  finally show ?thesis .
qed

lemma place_layers_result:
  "place_layers n xs pos =
     (if xs = [] then Inr pos
      else if n = 1 then Inl ZeroDivisionError
      else Inr (fold (\<lambda>(k, layer). place_layer (1 - real k / real_of_int (int n - 1)) layer) xs pos))"
  by (induction n xs pos rule: place_layers.induct) auto

lemma plot_hierarchical_pos_result:
  "plot_hierarchical_pos layers =
     (if layers = [] then Inr Map.empty
      else if length layers = 1 then Inl ZeroDivisionError
      else Inr (fold (\<lambda>(k, layer).
                  place_layer (1 - real k / real_of_int (int (length layers) - 1)) layer)
                (enumerate 0 layers) Map.empty))"
  by (simp add: plot_hierarchical_pos_def place_layers_result enumerate_eq_zip)

subsection \<open>The position loop\<close>

lemma fold_assign_other:
  "v \<notin> set layer \<Longrightarrow>
   fold (\<lambda>(j, node) pos. pos(node \<mapsto> g j)) (enumerate s layer) pos v = pos v"
  by (induction layer arbitrary: s pos) auto

lemma fold_assign_nth:
  "distinct layer \<Longrightarrow> j < length layer \<Longrightarrow>
   fold (\<lambda>(j, node) pos. pos(node \<mapsto> g j)) (enumerate s layer) pos (layer ! j) = Some (g (s + j))"
proof (induction layer arbitrary: s pos j)
  case Nil
  then show ?case by simp
next
  case (Cons x xs)
  let ?F = "\<lambda>(j, node) pos. pos(node \<mapsto> g j)"
  have step: "fold ?F (enumerate s (x # xs)) pos = fold ?F (enumerate (Suc s) xs) (pos(x \<mapsto> g s))"
    by simp
  show ?case
  proof (cases j)
    case 0
    from Cons.prems have "x \<notin> set xs"
      by simp
    then have "fold ?F (enumerate (Suc s) xs) (pos(x \<mapsto> g s)) x = (pos(x \<mapsto> g s)) x"
      by (rule fold_assign_other)
    then show ?thesis
      unfolding step 0 by simp
  next
    case (Suc j')
    with Cons.prems have "distinct xs" "j' < length xs"
      by simp_all
    from Cons.IH[OF this, of "Suc s" "pos(x \<mapsto> g s)"] show ?thesis
      unfolding step Suc by (simp only: nth_Cons_Suc add_Suc add_Suc_right)
  qed
qed

lemma dom_fold_assign:
  "dom (fold (\<lambda>(j, node) pos. pos(node \<mapsto> g j)) (enumerate s layer) pos) = dom pos \<union> set layer"
  by (induction layer arbitrary: s pos) auto

lemma place_layer_other: "v \<notin> set layer \<Longrightarrow> place_layer y layer pos v = pos v"
  unfolding place_layer_def by (rule fold_assign_other)

lemma place_layer_nth:
  "distinct layer \<Longrightarrow> j < length layer \<Longrightarrow>
   place_layer y layer pos (layer ! j) = Some (real (j + 1) / real (length layer + 1), y)"
  unfolding place_layer_def
  using fold_assign_nth[of layer j "\<lambda>j. (real (j + 1) / real (length layer + 1), y)" 0 pos]
  by simp

lemma dom_place_layer: "dom (place_layer y layer pos) = dom pos \<union> set layer"
  unfolding place_layer_def by (rule dom_fold_assign)

lemma fold_layers_other:
  "v \<notin> set (concat ls) \<Longrightarrow>
   fold (\<lambda>(k, layer). place_layer (h k) layer) (enumerate s ls) pos v = pos v"
  by (induction ls arbitrary: s pos) (auto simp: place_layer_other)

lemma dom_fold_layers:
  "dom (fold (\<lambda>(k, layer). place_layer (h k) layer) (enumerate s ls) pos) = dom pos \<union> set (concat ls)"
  by (induction ls arbitrary: s pos) (auto simp: dom_place_layer)

lemma fold_layers_nth:
  "distinct (concat ls) \<Longrightarrow> k < length ls \<Longrightarrow> j < length (ls ! k) \<Longrightarrow>
   fold (\<lambda>(k, layer). place_layer (h k) layer) (enumerate s ls) pos (ls ! k ! j)
     = Some (real (j + 1) / real (length (ls ! k) + 1), h (s + k))"
proof (induction ls arbitrary: s pos k)
  case Nil
  then show ?case by simp
next
  case (Cons l ls)
  let ?G = "\<lambda>(k, layer). place_layer (h k) layer"
  have step: "fold ?G (enumerate s (l # ls)) pos = fold ?G (enumerate (Suc s) ls) (place_layer (h s) l pos)"
    by simp
  show ?case
  proof (cases k)
    case 0
    with Cons.prems have j: "j < length l" and d: "distinct l"
      and disj: "set l \<inter> set (concat ls) = {}"
      by auto
    from j have "l ! j \<in> set l"
      by simp
    with disj have notin: "l ! j \<notin> set (concat ls)"
      by blast
    have "fold ?G (enumerate (Suc s) ls) (place_layer (h s) l pos) (l ! j)
            = place_layer (h s) l pos (l ! j)"
      using notin by (rule fold_layers_other)
    then show ?thesis
      unfolding step 0 by (simp add: place_layer_nth[OF d j])
  next
    case (Suc k')
    with Cons.prems have "distinct (concat ls)" "k' < length ls" "j < length (ls ! k')"
      by simp_all
    from Cons.IH[OF this, of "Suc s" "place_layer (h s) l pos"] show ?thesis
      unfolding step Suc by (simp only: nth_Cons_Suc add_Suc add_Suc_right)
  qed
qed


lemma real_pred_length: "1 \<le> n \<Longrightarrow> real_of_int (int n - 1) = real (n - 1)"
  by simp

text \<open>
  With two layers or more, and no node in two places, the loop gives every node of every
  layer its position.
\<close>

lemma positions_of_layers:
  assumes d: "distinct (concat L)" and len: "2 \<le> length L"
  shows "\<exists>pos. plot_hierarchical_pos L = Inr pos \<and> dom pos = set (concat L) \<and>
           (\<forall>k<length L. \<forall>j<length (L ! k).
              pos (L ! k ! j) =
                Some (real (j + 1) / real (length (L ! k) + 1), 1 - real k / real (length L - 1)))"
proof -
  define h where "h = (\<lambda>k. 1 - real k / real_of_int (int (length L) - 1))"
  define P where "P = fold (\<lambda>(k, layer). place_layer (h k) layer) (enumerate 0 L) Map.empty"
  have res: "plot_hierarchical_pos L = Inr P"
    using len by (auto simp: plot_hierarchical_pos_result P_def h_def)
  have dom: "dom P = set (concat L)"
    unfolding P_def dom_fold_layers by simp
  have nth: "P (L ! k ! j) = Some (real (j + 1) / real (length (L ! k) + 1), 1 - real k / real (length L - 1))"
    if "k < length L" "j < length (L ! k)" for k j
    using fold_layers_nth[OF d that, of h 0 Map.empty] len
    by (simp add: P_def h_def real_pred_length)
  from res dom nth show ?thesis
    by blast
qed

lemma heavy2_all_input:
  "\<forall>i<units heavy2. sint (in_degree heavy2 ! i) > sint (out_degree heavy2 ! i)"
proof (intro allI impI)
  fix i assume "i < units heavy2"
  then have "i = 0 \<or> i = 1"
    by (auto simp: heavy2_def)
  moreover have "sint (in_degree heavy2 ! 0) > sint (out_degree heavy2 ! 0)"
    by code_simp
  moreover have "sint (in_degree heavy2 ! 1) > sint (out_degree heavy2 ! 1)"
    by code_simp
  ultimately show "sint (in_degree heavy2 ! i) > sint (out_degree heavy2 ! i)"
    by auto
qed

subsection \<open>The division in \<open>plot_hierarchical\<close>\<close>

text \<open>
  C6. \<open>plot_hierarchical\<close> computes the \<open>y\<close> of layer \<open>layer_idx\<close> as
  \<open>1 - layer_idx / (len(self.layers) - 1)\<close>. On the layers that \<open>_detect_layers\<close> returns
  (they are \<open>self.layers\<close> of a visualizer built without \<open>layers\<close>), whatever the order in
  which Python iterates its sets: the position loop succeeds if and only if at least two
  layers were detected, and raises ZeroDivisionError if and only if exactly one was;
  exactly one layer is detected if and only if every node has in-degree strictly above
  its out-degree (as the 32-bit sums read); with two layers or more, every node of layer
  \<open>k\<close> gets \<open>y = 1 - k / (len(layers) - 1)\<close>. And there is a wiring with nodes, every one
  of in-degree strictly above its out-degree, on which exactly one layer is detected and
  the computation divides by zero.
\<close>

theorem plot_hierarchical_division:
  "(wiring_ok w \<longrightarrow>
      ((\<exists>pos. plot_hierarchical_pos (detect_layers slot w) = Inr pos)
         \<longleftrightarrow> 2 \<le> length (detect_layers slot w)) \<and>
      (plot_hierarchical_pos (detect_layers slot w) = Inl ZeroDivisionError
         \<longleftrightarrow> length (detect_layers slot w) = 1) \<and>
      (length (detect_layers slot w) = 1
         \<longleftrightarrow> (\<forall>i<units w. sint (in_degree w ! i) > sint (out_degree w ! i))) \<and>
      (2 \<le> length (detect_layers slot w) \<longrightarrow>
         (\<exists>pos. plot_hierarchical_pos (detect_layers slot w) = Inr pos \<and>
            (\<forall>k<length (detect_layers slot w). \<forall>j<length (detect_layers slot w ! k).
               pos (detect_layers slot w ! k ! j) =
                 Some (real (j + 1) / real (length (detect_layers slot w ! k) + 1),
                       1 - real k / real (length (detect_layers slot w) - 1)))))) \<and>
   (\<exists>w0. wiring_ok w0 \<and> 0 < units w0 \<and>
         (\<forall>i<units w0. sint (in_degree w0 ! i) > sint (out_degree w0 ! i)) \<and>
         length (detect_layers slot w0) = 1 \<and>
         plot_hierarchical_pos (detect_layers slot w0) = Inl ZeroDivisionError)"
proof (intro conjI impI)
  have ne: "detect_layers slot w \<noteq> []"
    by (simp add: detect_layers_closed)
  then have len: "1 \<le> length (detect_layers slot w)"
    by (cases "detect_layers slot w") auto
  show "(\<exists>pos. plot_hierarchical_pos (detect_layers slot w) = Inr pos)
          \<longleftrightarrow> 2 \<le> length (detect_layers slot w)"
    using ne len by (auto simp: plot_hierarchical_pos_result)
  show "plot_hierarchical_pos (detect_layers slot w) = Inl ZeroDivisionError
          \<longleftrightarrow> length (detect_layers slot w) = 1"
    using ne by (auto simp: plot_hierarchical_pos_result)
  show "length (detect_layers slot w) = 1
          \<longleftrightarrow> (\<forall>i<units w. sint (in_degree w ! i) > sint (out_degree w ! i))"
    by (rule one_layer_iff)
  show "\<exists>pos. plot_hierarchical_pos (detect_layers slot w) = Inr pos \<and>
            (\<forall>k<length (detect_layers slot w). \<forall>j<length (detect_layers slot w ! k).
               pos (detect_layers slot w ! k ! j) =
                 Some (real (j + 1) / real (length (detect_layers slot w ! k) + 1),
                       1 - real k / real (length (detect_layers slot w) - 1)))"
    if "2 \<le> length (detect_layers slot w)"
    using positions_of_layers[OF distinct_concat_detect_layers that] by blast
  have one: "length (detect_layers slot heavy2) = 1"
    unfolding one_layer_iff by (rule heavy2_all_input)
  moreover have "plot_hierarchical_pos (detect_layers slot heavy2) = Inl ZeroDivisionError"
    using one by (auto simp: plot_hierarchical_pos_result)
  moreover have "0 < units heavy2"
    by (simp add: heavy2_def)
  ultimately show "\<exists>w0. wiring_ok w0 \<and> 0 < units w0 \<and>
         (\<forall>i<units w0. sint (in_degree w0 ! i) > sint (out_degree w0 ! i)) \<and>
         length (detect_layers slot w0) = 1 \<and>
         plot_hierarchical_pos (detect_layers slot w0) = Inl ZeroDivisionError"
    using heavy2_ok heavy2_all_input by blast
qed

theorem plot_hierarchical_division_witness:
  "wiring_ok heavy2 \<and> units heavy2 = 2 \<and>
   map sint (in_degree heavy2) = [2 ^ 30, 2 ^ 30] \<and>
   map sint (out_degree heavy2) = [- (2 ^ 31), 0] \<and>
   detect_layers slot_ascending heavy2 = [[0, 1]] \<and>
   plot_hierarchical_pos (detect_layers slot_ascending heavy2) = Inl ZeroDivisionError \<and>
   wiring_ok empty_wiring \<and>
   detect_layers slot_ascending empty_wiring = [[]] \<and>
   plot_hierarchical_pos (detect_layers slot_ascending empty_wiring) = Inl ZeroDivisionError \<and>
   wiring_ok cycle2 \<and> detect_layers slot_descending cycle2 = [[], [1, 0]] \<and>
   (\<exists>pos. plot_hierarchical_pos (detect_layers slot_descending cycle2) = Inr pos \<and>
      pos 1 = Some (1 / 3, 0) \<and> pos 0 = Some (2 / 3, 0))"
proof -
  have u: "units heavy2 = 2"
    by (simp add: heavy2_def)
  have l2: "length (detect_layers slot_descending cycle2) = 2"
    by (simp add: detect_layers_cycle2_descending)
  from plot_hierarchical_division[of cycle2 slot_descending] cycle2_ok l2
  obtain pos where res: "plot_hierarchical_pos (detect_layers slot_descending cycle2) = Inr pos"
    and nth: "\<And>k j. k < length (detect_layers slot_descending cycle2) \<Longrightarrow>
           j < length (detect_layers slot_descending cycle2 ! k) \<Longrightarrow>
           pos (detect_layers slot_descending cycle2 ! k ! j) =
             Some (real (j + 1) / real (length (detect_layers slot_descending cycle2 ! k) + 1),
                   1 - real k / real (length (detect_layers slot_descending cycle2) - 1))"
    by auto
  from nth[of 1 0] have p1: "pos 1 = Some (1 / 3, 0)"
    by (simp add: detect_layers_cycle2_descending)
  from nth[of 1 1] have p0: "pos 0 = Some (2 / 3, 0)"
    by (simp add: detect_layers_cycle2_descending)
  have h: "plot_hierarchical_pos (detect_layers slot_ascending heavy2) = Inl ZeroDivisionError"
    using plot_hierarchical_division[of heavy2 slot_ascending] heavy2_ok
    by (simp add: detect_layers_heavy2)
  have e: "plot_hierarchical_pos (detect_layers slot_ascending empty_wiring) = Inl ZeroDivisionError"
    using plot_hierarchical_division[of empty_wiring slot_ascending] empty_wiring_ok
    by (simp add: detect_layers_empty_wiring)
  from res p1 p0 h e u show ?thesis
    using heavy2_ok empty_wiring_ok cycle2_ok degrees_heavy2 detect_layers_heavy2
      detect_layers_empty_wiring detect_layers_cycle2_descending
    by auto
qed

subsection \<open>The layout the repository defines\<close>

text \<open>
  C8, as the code has it. A node classification and a node-position computation are
  defined by the notebook's own code. For every wiring with a total adjacency matrix, and
  whatever the order in which Python iterates its sets: \<open>_detect_layers\<close> returns the layer
  of the nodes with in-degree above out-degree (as the 32-bit sums read), then the layer
  of the nodes with equal degrees if there are any, then the layer of the nodes with
  in-degree below out-degree if there are any, each in the order of the set's iteration;
  when at least two layers are detected, the loop of \<open>plot_hierarchical\<close> gives every node
  a position, node \<open>j\<close> of layer \<open>k\<close> being placed at \<open>x = (j + 1) / (len(layer) + 1)\<close>,
  \<open>y = 1 - k / (len(layers) - 1)\<close>; when exactly one layer is detected, it raises
  ZeroDivisionError.
\<close>

theorem hierarchical_layout_defined:
  "wiring_ok w \<Longrightarrow>
     detect_layers slot w =
       [input_layer slot w]
       @ (if hidden_nodes_of w = [] then [] else [hidden_layer slot w])
       @ (if output_nodes_of w = [] then [] else [output_layer slot w]) \<and>
     set (input_layer slot w)
       = {i. i < units w \<and> sint (in_degree w ! i) > sint (out_degree w ! i)} \<and>
     set (hidden_layer slot w) = {i. i < units w \<and> in_degree w ! i = out_degree w ! i} \<and>
     set (output_layer slot w)
       = {i. i < units w \<and> sint (in_degree w ! i) < sint (out_degree w ! i)} \<and>
     (2 \<le> length (detect_layers slot w) \<longrightarrow>
        (\<exists>pos. plot_hierarchical_pos (detect_layers slot w) = Inr pos \<and>
           dom pos = {0..<units w} \<and>
           (\<forall>k<length (detect_layers slot w). \<forall>j<length (detect_layers slot w ! k).
              pos (detect_layers slot w ! k ! j) =
                Some (real (j + 1) / real (length (detect_layers slot w ! k) + 1),
                      1 - real k / real (length (detect_layers slot w) - 1))))) \<and>
     (length (detect_layers slot w) = 1 \<longrightarrow>
        plot_hierarchical_pos (detect_layers slot w) = Inl ZeroDivisionError)"
proof (intro conjI impI)
  show "detect_layers slot w =
       [input_layer slot w]
       @ (if hidden_nodes_of w = [] then [] else [hidden_layer slot w])
       @ (if output_nodes_of w = [] then [] else [output_layer slot w])"
    by (rule detect_layers_closed)
  show "set (input_layer slot w)
          = {i. i < units w \<and> sint (in_degree w ! i) > sint (out_degree w ! i)}"
    by (auto simp: set_input_layer input_nodes_of_def)
  show "set (hidden_layer slot w) = {i. i < units w \<and> in_degree w ! i = out_degree w ! i}"
    by (auto simp: set_hidden_layer hidden_nodes_of_def)
  show "set (output_layer slot w)
          = {i. i < units w \<and> sint (in_degree w ! i) < sint (out_degree w ! i)}"
    by (auto simp: set_output_layer output_nodes_of_def)
  show "\<exists>pos. plot_hierarchical_pos (detect_layers slot w) = Inr pos \<and>
           dom pos = {0..<units w} \<and>
           (\<forall>k<length (detect_layers slot w). \<forall>j<length (detect_layers slot w ! k).
              pos (detect_layers slot w ! k ! j) =
                Some (real (j + 1) / real (length (detect_layers slot w ! k) + 1),
                      1 - real k / real (length (detect_layers slot w) - 1)))"
    if "2 \<le> length (detect_layers slot w)"
    using positions_of_layers[OF distinct_concat_detect_layers that]
    by (simp add: set_concat_detect_layers del: set_concat)
  show "plot_hierarchical_pos (detect_layers slot w) = Inl ZeroDivisionError"
    if "length (detect_layers slot w) = 1"
    using that by (auto simp: plot_hierarchical_pos_result)
qed

theorem hierarchical_layout_defined_witness:
  "wiring_ok chain3 \<and>
   detect_layers slot_ascending chain3 = [[2], [1], [0]] \<and>
   (\<exists>pos. plot_hierarchical_pos (detect_layers slot_ascending chain3) = Inr pos \<and>
      dom pos = {0..<3} \<and> pos 1 = Some (1 / 2, 1 / 2)) \<and>
   wiring_ok heavy2 \<and>
   plot_hierarchical_pos (detect_layers slot_ascending heavy2) = Inl ZeroDivisionError"
proof -
  have u3: "units chain3 = 3"
    by (simp add: chain3_def)
  have l3: "2 \<le> length (detect_layers slot_ascending chain3)"
    by (simp add: detect_layers_chain3)
  from hierarchical_layout_defined[OF chain3_ok, of slot_ascending] l3 obtain pos where
    res: "plot_hierarchical_pos (detect_layers slot_ascending chain3) = Inr pos"
    and dom: "dom pos = {0..<units chain3}"
    and nth: "\<And>k j. k < length (detect_layers slot_ascending chain3) \<Longrightarrow>
           j < length (detect_layers slot_ascending chain3 ! k) \<Longrightarrow>
           pos (detect_layers slot_ascending chain3 ! k ! j) =
             Some (real (j + 1) / real (length (detect_layers slot_ascending chain3 ! k) + 1),
                   1 - real k / real (length (detect_layers slot_ascending chain3) - 1))"
    by blast
  from nth[of 1 0] have "pos 1 = Some (1 / 2, 1 / 2)"
    by (simp add: detect_layers_chain3)
  moreover have "length (detect_layers slot_ascending heavy2) = 1"
    by (simp add: detect_layers_heavy2)
  with hierarchical_layout_defined[OF heavy2_ok, of slot_ascending]
  have "plot_hierarchical_pos (detect_layers slot_ascending heavy2) = Inl ZeroDivisionError"
    by blast
  ultimately show ?thesis
    using res dom chain3_ok heavy2_ok u3 detect_layers_chain3 by auto
qed

text \<open>
  C8, as the specification states it, fails: on the chain \<open>0 \<rightarrow> 1 \<rightarrow> 2\<close> the notebook's own
  code classifies the three nodes into three layers and computes a position for each.
\<close>

theorem layout_computed_in_repository:
  "detect_layers slot_ascending chain3 = [[2], [1], [0]] \<and>
   (\<exists>pos. plot_hierarchical_pos (detect_layers slot_ascending chain3) = Inr pos \<and>
      pos 2 = Some (1 / 2, 1) \<and> pos 1 = Some (1 / 2, 1 / 2) \<and> pos 0 = Some (1 / 2, 0))"
  by (simp add: detect_layers_chain3 plot_hierarchical_pos_result place_layer_def)

subsection \<open>\<open>generate_complex_data\<close> raises\<close>

text \<open>
  The base signal has one entry per point of \<open>t\<close>, that is \<open>seq_length\<close> entries, so
  \<open>len(x) - seq_length\<close> is zero and the first pass of the loop asks \<open>randint\<close> for a
  number in the empty range.
\<close>

lemma np_linspace_ok:
  "0 \<le> n \<Longrightarrow>
   np_linspace a b n =
     Inr (map (\<lambda>k. a + real k * ((b - a) / real_of_int (n - 1))) [0..<nat n])"
  by (simp add: np_linspace_def)

lemma base_signal_ok:
  "0 \<le> n \<Longrightarrow> \<exists>x. base_signal n = Inr x \<and> length x = nat n"
  by (simp add: base_signal_def np_linspace_def bind_err_def np_add_def np_scale_def np_sin_def)

lemma np_zeros_X:
  "0 \<le> b \<Longrightarrow> 1 \<le> s \<Longrightarrow>
   np_zeros [b, s - 1, 2] =
     Inr \<lparr>shape = [nat b, nat (s - 1), 2], data = replicate (nat b * (nat (s - 1) * 2)) 0\<rparr>"
  by (simp add: np_zeros_def)

lemma np_zeros_y:
  "0 \<le> b \<Longrightarrow> np_zeros [b, 2] = Inr \<lparr>shape = [nat b, 2], data = replicate (nat b * 2) 0\<rparr>"
  by (simp add: np_zeros_def)

lemma batch_step_raises:
  "int (length x) = seq_length \<Longrightarrow> batch_step x seq_length r i Xy = Inl ValueError"
  by (cases Xy) (simp add: batch_step_def np_random_randint_def bind_err_def)

lemma batch_loop_raises:
  "int (length x) = seq_length \<Longrightarrow> is \<noteq> [] \<Longrightarrow>
   batch_loop x seq_length rng is Xy = Inl ValueError"
  by (cases "is") (simp_all add: batch_step_raises bind_err_def)

lemma generate_complex_data_positive:
  assumes b: "1 \<le> batch_size" and s: "1 \<le> seq_length"
  shows "generate_complex_data batch_size seq_length rng = Inl ValueError"
proof -
  from s obtain x where x: "base_signal seq_length = Inr x" "length x = nat seq_length"
    using base_signal_ok[of seq_length] by auto
  then have len: "int (length x) = seq_length"
    using s by simp
  have ne: "[0..<nat batch_size] \<noteq> []"
    using b by simp
  show ?thesis
    using b s
    by (simp add: generate_complex_data_def x bind_err_def np_zeros_X np_zeros_y
        batch_loop_raises[OF len ne])
qed

lemma generate_complex_data_zero:
  assumes s: "1 \<le> seq_length"
  shows "generate_complex_data 0 seq_length rng =
           Inr (\<lparr>shape = [0, nat (seq_length - 1), 2], data = []\<rparr>, \<lparr>shape = [0, 2], data = []\<rparr>)"
proof -
  from s obtain x where x: "base_signal seq_length = Inr x"
    using base_signal_ok[of seq_length] by auto
  show ?thesis
    using s by (simp add: generate_complex_data_def x bind_err_def np_zeros_def mx_array_def)
qed

lemma generate_complex_data_negative:
  "batch_size < 0 \<Longrightarrow> \<exists>e. generate_complex_data batch_size seq_length rng = Inl e"
  by (cases "base_signal seq_length")
     (simp_all add: generate_complex_data_def bind_err_def np_zeros_def)


text \<open>
  C1. For every \<open>seq_length \<ge> 2\<close>: the base signal \<open>x\<close> has exactly \<open>seq_length\<close> entries
  and \<open>np.random.randint(0, len(x) - seq_length)\<close> raises ValueError; for every
  \<open>batch_size \<ge> 1\<close> the function raises ValueError; for \<open>batch_size = 0\<close> it returns
  arrays of shapes \<open>(0, seq_length - 1, 2)\<close> and \<open>(0, 2)\<close>; and it returns for no other
  \<open>batch_size\<close>.
\<close>

theorem generate_complex_data_raises:
  "2 \<le> seq_length \<Longrightarrow>
     (\<exists>x. base_signal seq_length = Inr x \<and> int (length x) = seq_length \<and>
          np_random_randint 0 (int (length x) - seq_length) r = Inl ValueError) \<and>
     (1 \<le> batch_size \<longrightarrow> generate_complex_data batch_size seq_length rng = Inl ValueError) \<and>
     generate_complex_data 0 seq_length rng =
       Inr (\<lparr>shape = [0, nat (seq_length - 1), 2], data = []\<rparr>, \<lparr>shape = [0, 2], data = []\<rparr>) \<and>
     ((\<exists>Xy. generate_complex_data batch_size seq_length rng = Inr Xy) \<longleftrightarrow> batch_size = 0)"
proof (intro conjI impI)
  assume s: "2 \<le> seq_length"
  from s obtain x where x: "base_signal seq_length = Inr x" "length x = nat seq_length"
    using base_signal_ok[of seq_length] by auto
  with s show "\<exists>x. base_signal seq_length = Inr x \<and> int (length x) = seq_length \<and>
          np_random_randint 0 (int (length x) - seq_length) r = Inl ValueError"
    by (simp add: np_random_randint_def)
  show "generate_complex_data batch_size seq_length rng = Inl ValueError" if "1 \<le> batch_size"
    using that s by (simp add: generate_complex_data_positive)
  show zero: "generate_complex_data 0 seq_length rng =
       Inr (\<lparr>shape = [0, nat (seq_length - 1), 2], data = []\<rparr>, \<lparr>shape = [0, 2], data = []\<rparr>)"
    using s by (simp add: generate_complex_data_zero)
  show "(\<exists>Xy. generate_complex_data batch_size seq_length rng = Inr Xy) \<longleftrightarrow> batch_size = 0"
  proof
    assume ret: "\<exists>Xy. generate_complex_data batch_size seq_length rng = Inr Xy"
    show "batch_size = 0"
    proof (rule ccontr)
      assume "batch_size \<noteq> 0"
      then consider "1 \<le> batch_size" | "batch_size < 0"
        by linarith
      then show False
      proof cases
        case 1
        with s ret show False
          by (simp add: generate_complex_data_positive)
      next
        case 2
        with ret generate_complex_data_negative[of batch_size seq_length rng] show False
          by auto
      qed
    qed
  next
    assume "batch_size = 0"
    with zero show "\<exists>Xy. generate_complex_data batch_size seq_length rng = Inr Xy"
      by simp
  qed
qed


theorem generate_complex_data_raises_witness:
  "(2::int) \<le> 100 \<and>
   generate_complex_data 1 100 (\<lambda>i. 0) = Inl ValueError \<and>
   generate_complex_data 32 50 (\<lambda>i. 7) = Inl ValueError \<and>
   generate_complex_data 0 100 (\<lambda>i. 0) =
     Inr (\<lparr>shape = [0, 99, 2], data = []\<rparr>, \<lparr>shape = [0, 2], data = []\<rparr>)"
  using generate_complex_data_raises[of 100 0 1 "\<lambda>i. 0"]
    generate_complex_data_raises[of 50 0 32 "\<lambda>i. 7"]
  by simp


subsection \<open>The training loop\<close>

text \<open>
  The loop is written to append one loss per epoch: whenever the generator and the
  library calls return, it runs through all its epochs, with one call of each and one
  loss appended per epoch. (With this generator that needs \<open>batch_size = 0\<close>.)
\<close>

lemma training_loop_all_epochs:
  assumes gen: "\<And>epoch. \<exists>Xy. generate_complex_data batch_size seq_length (rng epoch) = Inr Xy"
    and tdl: "\<And>epoch. \<exists>td. time_delta epoch = Inr td"
    and lag: "\<And>m X y d. \<exists>lg. loss_and_grad_fn m X y d = Inr lg"
    and upd: "\<And>m g. \<exists>m'. update m g = Inr m'"
  shows "\<exists>s'. training_loop loss_and_grad_fn update time_delta rng batch_size seq_length epochs s
               = (None, s') \<and>
              length (losses s') = length (losses s) + length epochs \<and>
              grad_calls s' = grad_calls s + length epochs \<and>
              update_calls s' = update_calls s + length epochs"
proof (induction epochs arbitrary: s)
  case Nil
  then show ?case by simp
next
  case (Cons epoch rest)
  from gen obtain Xy where g: "generate_complex_data batch_size seq_length (rng epoch) = Inr Xy"
    by blast
  from tdl obtain td where t: "time_delta epoch = Inr td"
    by blast
  from lag obtain lg where l: "loss_and_grad_fn (model s) (fst Xy) (snd Xy) td = Inr lg"
    by blast
  from upd obtain m' where u: "update (model s) (snd lg) = Inr m'"
    by blast
  from Cons.IH[of "s\<lparr>model := m', losses := losses s @ [fst lg],
                         grad_calls := grad_calls s + 1,
                         update_calls := update_calls s + 1\<rparr>"]
  show ?case
    by (simp add: g t l u)
qed

text \<open>
  C2. The training cell as written (\<open>batch_size = 32\<close>, \<open>seq_length = 50\<close>,
  \<open>n_epochs = 100\<close>) does not run its hundred iterations: whatever the library calls
  and the random draws do, the first call of \<open>generate_complex_data\<close> raises ValueError,
  neither \<open>loss_and_grad_fn\<close> nor \<open>optimizer.update\<close> is called, and \<open>losses\<close> stays
  empty.
\<close>

theorem training_cell_raises:
  "training_cell loss_and_grad_fn update time_delta rng m0 =
     (Some ValueError, \<lparr>model = m0, losses = [], grad_calls = 0, update_calls = 0\<rparr>)"
proof -
  have "[0..<100] = 0 # [1..<100]"
    by (simp add: upt_conv_Cons)
  then show ?thesis
    by (simp add: training_cell_def generate_complex_data_positive)
qed

subsection \<open>The base signal\<close>

lemma nth_np_add:
  "length xs = length ys \<Longrightarrow> k < length xs \<Longrightarrow> np_add xs ys ! k = xs ! k + ys ! k"
  by (simp add: np_add_def)

lemma length_np_add: "length (np_add xs ys) = min (length xs) (length ys)"
  by (simp add: np_add_def)


text \<open>
  C3. For every \<open>seq_length \<ge> 2\<close> the base signal has \<open>seq_length\<close> entries; entry \<open>k\<close> is
  \<open>sin(t_k) + 0.5 * sin(2 * t_k) + 0.25 * sin(4 * t_k)\<close>, where \<open>t_k\<close> is entry \<open>k\<close> of
  \<open>np.linspace(0, 8 * pi, seq_length)\<close>, the evenly spaced point \<open>k * 8 * pi / (seq_length - 1)\<close>.
\<close>

theorem base_signal_closed_form:
  "2 \<le> seq_length \<Longrightarrow>
     (\<exists>t x. np_linspace 0 (8 * pi) seq_length = Inr t \<and> base_signal seq_length = Inr x \<and>
        length t = nat seq_length \<and> length x = nat seq_length \<and>
        (\<forall>k<nat seq_length. t ! k = real k * (8 * pi / real_of_int (seq_length - 1))) \<and>
        (\<forall>k<nat seq_length.
           x ! k = sin (t ! k) + 0.5 * sin (2 * t ! k) + 0.25 * sin (4 * t ! k)))"
proof -
  assume s: "2 \<le> seq_length"
  define t where "t = map (\<lambda>k. 0 + real k * ((8 * pi - 0) / real_of_int (seq_length - 1))) [0..<nat seq_length]"
  define x where "x = np_add (np_add (np_sin t) (np_scale 0.5 (np_sin (np_scale 2 t))))
                        (np_scale 0.25 (np_sin (np_scale 4 t)))"
  have lin: "np_linspace 0 (8 * pi) seq_length = Inr t"
    using s by (simp add: np_linspace_def t_def)
  have sig: "base_signal seq_length = Inr x"
    by (simp add: base_signal_def lin bind_err_def x_def)
  have lt: "length t = nat seq_length"
    by (simp add: t_def)
  have lx: "length x = nat seq_length"
    by (simp add: x_def length_np_add np_sin_def np_scale_def lt)
  have tk: "t ! k = real k * (8 * pi / real_of_int (seq_length - 1))" if "k < nat seq_length" for k
    using that by (simp add: t_def)
  have xk: "x ! k = sin (t ! k) + 0.5 * sin (2 * t ! k) + 0.25 * sin (4 * t ! k)"
    if "k < nat seq_length" for k
    using that lt by (simp add: x_def nth_np_add length_np_add np_sin_def np_scale_def)
  from lin sig lt lx tk xk show ?thesis
    by blast
qed


theorem base_signal_closed_form_witness:
  "(2::int) \<le> 3 \<and>
   (\<exists>t x. np_linspace 0 (8 * pi) 3 = Inr t \<and> base_signal 3 = Inr x \<and>
      length x = 3 \<and> t ! 1 = 4 * pi \<and>
      x ! 1 = sin (t ! 1) + 0.5 * sin (2 * t ! 1) + 0.25 * sin (4 * t ! 1))"
proof -
  have "(2::int) \<le> 3"
    by simp
  from base_signal_closed_form[OF this] obtain t x where
    "np_linspace 0 (8 * pi) 3 = Inr t" "base_signal 3 = Inr x" "length x = nat 3"
    and tk: "\<And>k. k < nat 3 \<Longrightarrow> t ! k = real k * (8 * pi / real_of_int (3 - 1))"
    and xk: "\<And>k. k < nat 3 \<Longrightarrow> x ! k = sin (t ! k) + 0.5 * sin (2 * t ! k) + 0.25 * sin (4 * t ! k)"
    by blast
  moreover from tk[of 1] have "t ! 1 = 4 * pi"
    by simp
  moreover from xk[of 1] have "x ! 1 = sin (t ! 1) + 0.5 * sin (2 * t ! 1) + 0.25 * sin (4 * t ! 1)"
    by simp
  ultimately show ?thesis
    by auto
qed


subsection \<open>The import cell of the visualization notebook\<close>

text \<open>
  C4. The entry of the \<open>source\<close> array on line 24 of \<open>mlx_custom_visualization.ipynb\<close> is
  a JSON string, followed by the comma. The entry on lines 25 to 27 is not: it holds two
  raw line feeds, which JSON does not allow inside a string. So the file is not a
  well-formed JSON document.
\<close>

theorem import_cell_string_not_json:
  "json_string import_cell_line_24 = Some '','' \<and>
   json_string import_cell_lines_25_27 = None"
  by (simp add: json_string_def import_cell_line_24_def import_cell_lines_25_27_def
      json_escape_char_def)


end
